theory Spec2Isabelle
  imports Main "HOL-Library.Sublist"
begin

section \<open>Strings\<close>

text \<open>
  Python's \<open>str\<close> is a sequence of Unicode code points. A character is modelled as its
  code point, a natural number, so that \<^const>\<open>length\<close> is Python's \<open>len\<close>. A literal of
  the program is written \<open>str ''...''\<close>.
\<close>

type_synonym pystr = "nat list"

definition str :: "string \<Rightarrow> pystr" where
  "str s = map of_char s"

definition newline :: nat where
  "newline = 10"

text \<open>
  Which characters are white space and what \<open>str.lower\<close> and \<open>str.upper\<close> return is read
  by Python from the Unicode character database, which is not part of the program. The
  model takes the three as a parameter, written \<open>u\<close>: \<open>isspace u c\<close> says whether
  \<open>str.isspace\<close> holds of the character \<open>c\<close>, and \<open>lower u\<close> and \<open>upper u\<close> are the two
  methods on whole strings (a case mapping may change the length of a string). Every
  property below is proved for every \<open>u\<close>.
\<close>

record str_methods =
  isspace :: "nat \<Rightarrow> bool"
  lower :: "pystr \<Rightarrow> pystr"
  upper :: "pystr \<Rightarrow> pystr"

text \<open>\<open>s.strip()\<close>: the white space at the two ends is removed.\<close>

definition strip :: "str_methods \<Rightarrow> pystr \<Rightarrow> pystr" where
  "strip u s = rev (dropWhile (isspace u) (rev (dropWhile (isspace u) s)))"

text \<open>
  \<open>a in b\<close> on two strings is \<^term>\<open>sublist a b\<close>: \<open>a\<close> occurs in \<open>b\<close> as a contiguous
  block.
\<close>

text \<open>\<open>sep.join(xs)\<close>\<close>

fun join :: "'a list \<Rightarrow> 'a list list \<Rightarrow> 'a list" where
  "join sep [] = []"
| "join sep [x] = x"
| "join sep (x # y # ys) = x @ sep @ join sep (y # ys)"

text \<open>\<open>s.split(sep)\<close> for a separator of one character: the inverse of the join.\<close>

fun split_on :: "'a \<Rightarrow> 'a list \<Rightarrow> 'a list list" where
  "split_on sep [] = [[]]"
| "split_on sep (c # cs) =
     (if c = sep then [] # split_on sep cs
      else (case split_on sep cs of
              [] \<Rightarrow> [[c]]
            | w # ws \<Rightarrow> (c # w) # ws))"


section \<open>The chunker\<close>

text \<open>
  \<^verbatim>\<open>
  def chunk_text(paragraphs, max_chars=3500):
      chunks = []; buffer = []; current = 0
      for para in paragraphs:
          if current + len(para) + 1 > max_chars and buffer:
              chunks.append("\n".join(buffer))
              buffer = []
              current = 0
          buffer.append(para)
          current += len(para) + 1
      if buffer:
          chunks.append("\n".join(buffer))
      return chunks
  \<close>
  The three local variables are the loop state; one iteration is \<open>chunk_step\<close>.
\<close>

record chunk_state =
  chunks :: "pystr list"
  buffer :: "pystr list"
  current :: int

definition chunk_init :: chunk_state where
  "chunk_init = \<lparr>chunks = [], buffer = [], current = 0\<rparr>"

text \<open>The test of the \<open>if\<close> inside the loop: the buffer is closed and a new chunk begins.\<close>

definition begins_new_chunk :: "int \<Rightarrow> chunk_state \<Rightarrow> pystr \<Rightarrow> bool" where
  "begins_new_chunk max_chars s para \<longleftrightarrow>
     current s + int (length para) + 1 > max_chars \<and> buffer s \<noteq> []"

definition chunk_step :: "int \<Rightarrow> chunk_state \<Rightarrow> pystr \<Rightarrow> chunk_state" where
  "chunk_step max_chars s para =
     (let s1 = (if begins_new_chunk max_chars s para
                then \<lparr>chunks = chunks s @ [join [newline] (buffer s)], buffer = [], current = 0\<rparr>
                else s)
      in \<lparr>chunks = chunks s1,
          buffer = buffer s1 @ [para],
          current = current s1 + (int (length para) + 1)\<rparr>)"

text \<open>What \<open>current\<close> counts: one more than the length of each buffered paragraph.\<close>

definition buffer_cost :: "pystr list \<Rightarrow> int" where
  "buffer_cost b = sum_list (map (\<lambda>p. int (length p) + 1) b)"

definition chunk_finish :: "chunk_state \<Rightarrow> pystr list" where
  "chunk_finish s =
     (if buffer s \<noteq> [] then chunks s @ [join [newline] (buffer s)] else chunks s)"

definition chunk_text :: "pystr list \<Rightarrow> int \<Rightarrow> pystr list" where
  "chunk_text paragraphs max_chars = chunk_finish (foldl (chunk_step max_chars) chunk_init paragraphs)"


section \<open>Categories\<close>

text \<open>\<open>CATEGORY_DETAILS\<close>: a dict literal, kept as an association list in the order of the
  source (the legend is written in this order).\<close>

record category_meta =
  title :: pystr
  color :: pystr

definition CATEGORY_DETAILS :: "(pystr \<times> category_meta) list" where
  "CATEGORY_DETAILS =
     [(str ''A'', \<lparr>title = str ''Background & Context'', color = str ''FFF2CC''\<rparr>),
      (str ''B'', \<lparr>title = str ''Feasibility & Practical Implementation'', color = str ''DAEEF3''\<rparr>),
      (str ''C'', \<lparr>title = str ''Validity & Learning Assurance'', color = str ''E2F0D9''\<rparr>),
      (str ''D'', \<lparr>title = str ''Disciplinary Relevance'', color = str ''FCE4D6''\<rparr>),
      (str ''E'', \<lparr>title = str ''Student Engagement & Observations'', color = str ''E4DFEC''\<rparr>),
      (str ''F'', \<lparr>title = str ''Reflection & Improvement'', color = str ''D9E1F2''\<rparr>),
      (str ''G'', \<lparr>title = str ''Sustainability & Future Use'', color = str ''F2F2F2''\<rparr>),
      (str ''H'', \<lparr>title = str ''Additional Insights'', color = str ''D5E8D4''\<rparr>)]"

record QuoteMatch =
  category :: pystr
  quote :: pystr


section \<open>The document\<close>

text \<open>
  The document library (python-docx) is used by the program and is not part of it. The
  model keeps what the program reads and writes. A run has its text and, when present,
  the children of its \<open>w:rPr\<close> element, in document order. A paragraph is the sequence
  of its \<open>w:r\<close> and \<open>w:hyperlink\<close> children: \<open>paragraph.text\<close> concatenates the text of
  both, \<open>paragraph.runs\<close> lists the \<open>w:r\<close> children only. \<open>document.paragraphs\<close> is the
  list of paragraphs, and \<open>document.add_paragraph()\<close> appends to it.
\<close>

datatype element = Element (tag: pystr) (attrib: "(pystr \<times> pystr) list")

record run =
  run_text :: pystr
  rPr :: "element list option"

datatype inline = R run | Hyperlink "run list"

datatype "paragraph" = Paragraph (inline_content: "inline list")

datatype document = Document (paragraphs: "paragraph list")

fun inline_text :: "inline \<Rightarrow> pystr" where
  "inline_text (R r) = run_text r"
| "inline_text (Hyperlink rs) = concat (map run_text rs)"

definition paragraph_text :: "paragraph \<Rightarrow> pystr" where
  "paragraph_text p = concat (map inline_text (inline_content p))"



text \<open>\<open>qn\<close>: a prefixed tag name in Clark notation; the program uses the prefix \<open>w\<close> only.\<close>

definition qn :: "pystr \<Rightarrow> pystr" where
  "qn t = (if take 2 t = str ''w:''
           then str ''{http://schemas.openxmlformats.org/wordprocessingml/2006/main}'' @ drop 2 t
           else t)"

text \<open>\<open>run._element.get_or_add_rPr()\<close>: the children of the run's \<open>w:rPr\<close>, which is
  created empty when the run has none.\<close>

definition get_or_add_rPr :: "run \<Rightarrow> element list" where
  "get_or_add_rPr r = (case rPr r of None \<Rightarrow> [] | Some children \<Rightarrow> children)"


section \<open>Shading and highlighting\<close>

text \<open>
  \<^verbatim>\<open>
  def apply_shading(run, color_hex):
      rpr = run._element.get_or_add_rPr()
      # Remove any existing highlight elements to avoid layering colors.
      for child in list(rpr):
          if child.tag == qn("w:highlight"):
              rpr.remove(child)
      shd = OxmlElement("w:shd")
      shd.set(qn("w:val"), "clear")
      shd.set(qn("w:fill"), color_hex)
      rpr.append(shd)
  \<close>
\<close>

definition shd_element :: "pystr \<Rightarrow> element" where
  "shd_element color_hex =
     Element (qn (str ''w:shd'')) [(qn (str ''w:val''), str ''clear''), (qn (str ''w:fill''), color_hex)]"

definition apply_shading :: "run \<Rightarrow> pystr \<Rightarrow> run" where
  "apply_shading r color_hex =
     (let rpr = get_or_add_rPr r;
          rpr = filter (\<lambda>child. tag child \<noteq> qn (str ''w:highlight'')) rpr
      in r\<lparr>rPr := Some (rpr @ [shd_element color_hex])\<rparr>)"

text \<open>The highlight and shading markings a run carries: the \<open>w:highlight\<close> and \<open>w:shd\<close>
  children of its \<open>w:rPr\<close>.\<close>

definition markings :: "run \<Rightarrow> element list" where
  "markings r =
     filter (\<lambda>child. tag child = qn (str ''w:highlight'') \<or> tag child = qn (str ''w:shd''))
       (get_or_add_rPr r)"

text \<open>\<open>for run in paragraph.runs: apply_shading(run, color_hex)\<close>\<close>

fun shade_inline :: "pystr \<Rightarrow> inline \<Rightarrow> inline" where
  "shade_inline color_hex (R r) = R (apply_shading r color_hex)"
| "shade_inline color_hex (Hyperlink rs) = Hyperlink rs"

definition shade_runs :: "pystr \<Rightarrow> paragraph \<Rightarrow> paragraph" where
  "shade_runs color_hex p = Paragraph (map (shade_inline color_hex) (inline_content p))"

text \<open>
  \<^verbatim>\<open>
  def highlight_quote(document, quote, color_hex):
      normalized = quote.strip()
      if not normalized:
          return False
      normalized_lower = normalized.lower()
      applied = False
      for paragraph in document.paragraphs:
          text = paragraph.text.strip()
          if not text:
              continue
          if normalized_lower in text.lower():
              for run in paragraph.runs:
                  apply_shading(run, color_hex)
              applied = True
      return applied
  \<close>
  The document is changed in place; the model returns it with the flag. The loop state
  is the paragraphs already visited and \<open>applied\<close>.
\<close>

definition highlight_step ::
  "str_methods \<Rightarrow> pystr \<Rightarrow> pystr \<Rightarrow> paragraph list \<times> bool \<Rightarrow> paragraph
     \<Rightarrow> paragraph list \<times> bool" where
  "highlight_step u normalized_lower color_hex st p =
     (let text = strip u (paragraph_text p) in
      if text = [] then (fst st @ [p], snd st)
      else if sublist normalized_lower (lower u text) then (fst st @ [shade_runs color_hex p], True)
      else (fst st @ [p], snd st))"

definition highlight_quote ::
  "str_methods \<Rightarrow> document \<Rightarrow> pystr \<Rightarrow> pystr \<Rightarrow> document \<times> bool" where
  "highlight_quote u d q color_hex =
     (let normalized = strip u q in
      if normalized = [] then (d, False)
      else
        (let normalized_lower = lower u normalized;
             st = foldl (highlight_step u normalized_lower color_hex) ([], False) (paragraphs d)
         in (Document (fst st), snd st)))"

text \<open>The paragraphs the matcher selects: the trimmed text is not empty and contains the
  trimmed quote, both in lower case.\<close>

definition quote_found :: "str_methods \<Rightarrow> pystr \<Rightarrow> paragraph \<Rightarrow> bool" where
  "quote_found u q p \<longleftrightarrow>
     strip u (paragraph_text p) \<noteq> [] \<and>
     sublist (lower u (strip u q)) (lower u (strip u (paragraph_text p)))"




section \<open>Parsing the response\<close>

text \<open>
  The value \<open>json.loads\<close> returns: \<open>None\<close>, a bool, a number, a string, a list or a
  dict (an association list; a decoded dict has each key once). The program looks at a
  number only to see whether it is zero.
\<close>

datatype json =
    JNull
  | JBool bool
  | JNum int
  | JStr pystr
  | JArr "json list"
  | JObj "(pystr \<times> json) list"

datatype error =
    ValueError pystr
  | RuntimeError pystr
  | AttributeError
  | TypeError
  | IndexError
  | KeyError pystr

text \<open>\<open>v.get(key, default)\<close>: only a dict has the method.\<close>

fun py_get :: "json \<Rightarrow> pystr \<Rightarrow> json \<Rightarrow> error + json" where
  "py_get (JObj kvs) key dflt = Inr (case map_of kvs key of None \<Rightarrow> dflt | Some v \<Rightarrow> v)"
| "py_get _ key dflt = Inl AttributeError"

text \<open>\<open>for x in v\<close>: the elements of a list, the characters of a string, the keys of a
  dict; nothing else is iterable.\<close>

fun py_iter :: "json \<Rightarrow> error + json list" where
  "py_iter (JArr xs) = Inr xs"
| "py_iter (JStr s) = Inr (map (\<lambda>c. JStr [c]) s)"
| "py_iter (JObj kvs) = Inr (map (\<lambda>kv. JStr (fst kv)) kvs)"
| "py_iter _ = Inl TypeError"

fun truthy :: "json \<Rightarrow> bool" where
  "truthy JNull = False"
| "truthy (JBool b) = b"
| "truthy (JNum n) = (n \<noteq> 0)"
| "truthy (JStr s) = (s \<noteq> [])"
| "truthy (JArr xs) = (xs \<noteq> [])"
| "truthy (JObj kvs) = (kvs \<noteq> [])"

text \<open>\<open>v.strip()\<close>: only a string has the method.\<close>

fun py_strip :: "str_methods \<Rightarrow> json \<Rightarrow> error + pystr" where
  "py_strip u (JStr s) = Inr (strip u s)"
| "py_strip u _ = Inl AttributeError"

text \<open>
  \<^verbatim>\<open>
  matches = []
  for item in parsed.get("matches", []):
      category = item.get("category", "").strip().upper()
      if category not in CATEGORY_DETAILS:
          continue
      for quote in item.get("quotes", []):
          quote = (quote or "").strip()
          if quote:
              matches.append(QuoteMatch(category=category, quote=quote))
  \<close>
\<close>

fun quotes_loop ::
  "str_methods \<Rightarrow> pystr \<Rightarrow> json list \<Rightarrow> QuoteMatch list \<Rightarrow> error + QuoteMatch list" where
  "quotes_loop u cat [] matches = Inr matches"
| "quotes_loop u cat (q # qs) matches =
     (case py_strip u (if truthy q then q else JStr []) of
        Inl e \<Rightarrow> Inl e
      | Inr q' \<Rightarrow>
          quotes_loop u cat qs
            (if q' \<noteq> [] then matches @ [\<lparr>category = cat, quote = q'\<rparr>] else matches))"

fun items_loop :: "str_methods \<Rightarrow> json list \<Rightarrow> QuoteMatch list \<Rightarrow> error + QuoteMatch list" where
  "items_loop u [] matches = Inr matches"
| "items_loop u (item # items) matches =
     (case py_get item (str ''category'') (JStr []) of
        Inl e \<Rightarrow> Inl e
      | Inr v \<Rightarrow>
          (case py_strip u v of
             Inl e \<Rightarrow> Inl e
           | Inr stripped \<Rightarrow>
               (let cat = upper u stripped in
                if map_of CATEGORY_DETAILS cat = None then items_loop u items matches
                else
                  (case py_get item (str ''quotes'') (JArr []) of
                     Inl e \<Rightarrow> Inl e
                   | Inr qv \<Rightarrow>
                       (case py_iter qv of
                          Inl e \<Rightarrow> Inl e
                        | Inr qs \<Rightarrow>
                            (case quotes_loop u cat qs matches of
                               Inl e \<Rightarrow> Inl e
                             | Inr matches' \<Rightarrow> items_loop u items matches'))))))"

definition parse_matches :: "str_methods \<Rightarrow> json \<Rightarrow> error + QuoteMatch list" where
  "parse_matches u parsed =
     (case py_get parsed (str ''matches'') (JArr []) of
        Inl e \<Rightarrow> Inl e
      | Inr v \<Rightarrow> (case py_iter v of Inl e \<Rightarrow> Inl e | Inr items \<Rightarrow> items_loop u items []))"

text \<open>A response that follows the schema of the prompt: a list of entries, each a
  category string and a list of quote strings.\<close>

definition entry_json :: "pystr \<times> pystr list \<Rightarrow> json" where
  "entry_json e =
     JObj [(str ''category'', JStr (fst e)), (str ''quotes'', JArr (map JStr (snd e)))]"

definition response_json :: "(pystr \<times> pystr list) list \<Rightarrow> json" where
  "response_json entries = JObj [(str ''matches'', JArr (map entry_json entries))]"

text \<open>
  A decoded response is well formed for a list of entries when it is a dict whose
  \<open>matches\<close> is a list of dicts, one for each entry, with the entry's category string
  under \<open>category\<close> and the list of its quote strings under \<open>quotes\<close>. Other keys and
  the order of the keys do not matter.
\<close>

fun conforms :: "json \<Rightarrow> pystr \<times> pystr list \<Rightarrow> bool" where
  "conforms (JObj kvs) e \<longleftrightarrow>
     map_of kvs (str ''category'') = Some (JStr (fst e)) \<and>
     map_of kvs (str ''quotes'') = Some (JArr (map JStr (snd e)))"
| "conforms _ e \<longleftrightarrow> False"

fun well_formed :: "json \<Rightarrow> (pystr \<times> pystr list) list \<Rightarrow> bool" where
  "well_formed (JObj kvs) entries \<longleftrightarrow>
     (case map_of kvs (str ''matches'') of
        Some (JArr items) \<Rightarrow> list_all2 conforms items entries
      | _ \<Rightarrow> False)"
| "well_formed _ entries \<longleftrightarrow> False"

text \<open>What the specification says one entry yields.\<close>

definition entry_matches :: "str_methods \<Rightarrow> pystr \<times> pystr list \<Rightarrow> QuoteMatch list" where
  "entry_matches u e =
     (let cat = upper u (strip u (fst e)) in
      if cat \<in> set (map str [''A'', ''B'', ''C'', ''D'', ''E'', ''F'', ''G'', ''H''])
      then map (\<lambda>q. \<lparr>category = cat, quote = q\<rparr>)
             (filter (\<lambda>q. q \<noteq> []) (map (strip u) (snd e)))
      else [])"


section \<open>The pipeline\<close>

text \<open>The lines written to the log window, by the format string that produces them.\<close>

datatype log_msg =
    LoadingTranscript
  | CodingChunk nat
  | ReceivedMatches nat
  | NoExcerpts
  | AppliedHighlights nat
  | SavedTranscript
  | ErrorMsg error

definition user_prompt :: pystr where
  "user_prompt =
     str ''Identify exact quotations from this transcript and map them '' @
     str ''to the categories. Only include verbatim matches. Transcript:'' @ [newline, newline]"

text \<open>
  What \<open>client.chat.completions.create\<close> does, as far as the program looks at it: it
  raises \<open>OpenAIError\<close>, or it returns a response whose \<open>choices\<close> each hold a message
  with a \<open>content\<close> that is a string or \<open>None\<close>.
\<close>

datatype completion = OpenAIError | Completion "pystr option list"

text \<open>
  \<^verbatim>\<open>
  try:
      response = self.client.chat.completions.create(...)
  except OpenAIError as exc:
      raise RuntimeError("Azure OpenAI call failed. ...") from exc
  content = response.choices[0].message.content
  try:
      parsed = json.loads(content)
  except json.JSONDecodeError as exc:
      raise ValueError(f"Model response was not valid JSON: {content}") from exc
  \<close>
  The remote service and \<open>json.loads\<close> are parameters: \<open>create\<close> takes the user message;
  \<open>loads\<close> takes a string and returns \<open>None\<close> when \<open>json.loads\<close> raises
  \<open>JSONDecodeError\<close>. An empty \<open>choices\<close> raises \<open>IndexError\<close> at \<open>choices[0]\<close>, and on a
  \<open>content\<close> that is \<open>None\<close> \<open>json.loads\<close> raises \<open>TypeError\<close>, which the \<open>except\<close> clause
  does not catch. The result is the lines logged and the matches or the exception
  raised.
\<close>

definition code_chunk ::
  "str_methods \<Rightarrow> (pystr \<Rightarrow> completion) \<Rightarrow> (pystr \<Rightarrow> json option) \<Rightarrow> pystr
     \<Rightarrow> log_msg list \<times> (error + QuoteMatch list)" where
  "code_chunk u create loads chunk =
     (let logged = [CodingChunk (length chunk)] in
      case create (user_prompt @ chunk) of
        OpenAIError \<Rightarrow>
          (logged, Inl (RuntimeError
            (str ''Azure OpenAI call failed. Please confirm your endpoint, '' @
             str ''deployment name, API version, and key.'')))
      | Completion choices \<Rightarrow>
          (case choices of
             [] \<Rightarrow> (logged, Inl IndexError)
           | None # _ \<Rightarrow> (logged, Inl TypeError)
           | Some content # _ \<Rightarrow>
               (case loads content of
                  None \<Rightarrow>
                    (logged, Inl (ValueError (str ''Model response was not valid JSON: '' @ content)))
                | Some parsed \<Rightarrow>
                    (case parse_matches u parsed of
                       Inl e \<Rightarrow> (logged, Inl e)
                     | Inr matches \<Rightarrow>
                         (logged @ [ReceivedMatches (length matches)], Inr matches)))))"

text \<open>\<open>for chunk in chunk_text(paragraphs): matches.extend(self._code_chunk(chunk))\<close>\<close>

fun code_chunks ::
  "str_methods \<Rightarrow> (pystr \<Rightarrow> completion) \<Rightarrow> (pystr \<Rightarrow> json option) \<Rightarrow> pystr list
     \<Rightarrow> log_msg list \<Rightarrow> QuoteMatch list \<Rightarrow> log_msg list \<times> (error + QuoteMatch list)" where
  "code_chunks u create loads [] logged matches = (logged, Inr matches)"
| "code_chunks u create loads (chunk # rest) logged matches =
     (case code_chunk u create loads chunk of
        (l, Inl e) \<Rightarrow> (logged @ l, Inl e)
      | (l, Inr ms) \<Rightarrow> code_chunks u create loads rest (logged @ l) (matches @ ms))"

text \<open>
  \<^verbatim>\<open>
  def _apply_highlights(self, document, matches):
      applied = 0
      for match in matches:
          color = CATEGORY_DETAILS[match.category]["color"]
          if highlight_quote(document, match.quote, color):
              applied += 1
      return applied
  \<close>
\<close>

fun apply_highlights ::
  "str_methods \<Rightarrow> document \<Rightarrow> QuoteMatch list \<Rightarrow> nat \<Rightarrow> error + document \<times> nat" where
  "apply_highlights u d [] applied = Inr (d, applied)"
| "apply_highlights u d (m # ms) applied =
     (case map_of CATEGORY_DETAILS (category m) of
        None \<Rightarrow> Inl (KeyError (category m))
      | Some meta \<Rightarrow>
          (let res = highlight_quote u d (quote m) (color meta)
           in apply_highlights u (fst res) ms (if snd res then applied + 1 else applied)))"

text \<open>
  \<^verbatim>\<open>
  def _append_legend(self, document):
      legend_title = document.add_paragraph()
      legend_title_run = legend_title.add_run("Coding legend")
      legend_title_run.bold = True
      for code, meta in CATEGORY_DETAILS.items():
          entry = document.add_paragraph()
          entry.add_run(f"{code}. {meta['title']} - ")
          swatch = entry.add_run("example")
          apply_shading(swatch, meta["color"])
  \<close>
  The dash of the entry is an en dash, U+2013.
\<close>

definition en_dash :: pystr where
  "en_dash = [0x2013]"

definition add_run :: "pystr \<Rightarrow> run" where
  "add_run t = \<lparr>run_text = t, rPr = None\<rparr>"

definition legend_title :: "paragraph" where
  "legend_title = Paragraph [R ((add_run (str ''Coding legend''))\<lparr>rPr := Some [Element (qn (str ''w:b'')) []]\<rparr>)]"

definition legend_entry :: "pystr \<times> category_meta \<Rightarrow> paragraph" where
  "legend_entry cm =
     Paragraph
       [R (add_run (fst cm @ str ''. '' @ title (snd cm) @ str '' '' @ en_dash @ str '' '')),
        R (apply_shading (add_run (str ''example'')) (color (snd cm)))]"

definition legend_paragraphs :: "paragraph list" where
  "legend_paragraphs = legend_title # map legend_entry CATEGORY_DETAILS"

definition append_legend :: "document \<Rightarrow> document" where
  "append_legend d = Document (paragraphs d @ legend_paragraphs)"

text \<open>
  \<open>_process_document\<close>. The outcome of a run is the log, the file written at the
  destination (\<open>None\<close> when \<open>document.save\<close> was not reached) and the exception the
  \<open>except\<close> clause caught.
  \<^verbatim>\<open>
  document = Document(self.input_path.get())
  paragraphs = [p.text.strip() for p in document.paragraphs if p.text.strip()]
  if not paragraphs:
      raise ValueError("No text found in the document.")
  matches = []
  for chunk in chunk_text(paragraphs):
      matches.extend(self._code_chunk(chunk))
  if not matches:
      self._log("No excerpts were returned by the model. Saving original document.")
  else:
      applied = self._apply_highlights(document, matches)
      self._log(f"Applied {applied} highlight(s).")
  self._append_legend(document)
  document.save(self.output_path.get())
  self._log(f"Saved coded transcript to {self.output_path.get()}.")
  \<close>
\<close>

record outcome =
  messages :: "log_msg list"
  saved :: "document option"
  failure :: "error option"

definition failed :: "log_msg list \<Rightarrow> error \<Rightarrow> outcome" where
  "failed logged e = \<lparr>messages = logged @ [ErrorMsg e], saved = None, failure = Some e\<rparr>"

definition save_with_legend :: "log_msg list \<Rightarrow> document \<Rightarrow> outcome" where
  "save_with_legend logged d =
     \<lparr>messages = logged @ [SavedTranscript], saved = Some (append_legend d), failure = None\<rparr>"

definition document_texts :: "str_methods \<Rightarrow> document \<Rightarrow> pystr list" where
  "document_texts u d =
     filter (\<lambda>t. t \<noteq> []) (map (\<lambda>p. strip u (paragraph_text p)) (paragraphs d))"

definition process_document ::
  "str_methods \<Rightarrow> (pystr \<Rightarrow> completion) \<Rightarrow> (pystr \<Rightarrow> json option) \<Rightarrow> document
     \<Rightarrow> outcome" where
  "process_document u create loads d =
     (let logged = [LoadingTranscript];
          pars = document_texts u d
      in if pars = [] then failed logged (ValueError (str ''No text found in the document.''))
         else
           (case code_chunks u create loads (chunk_text pars 3500) logged [] of
              (logged, Inl e) \<Rightarrow> failed logged e
            | (logged, Inr matches) \<Rightarrow>
                (if matches = []
                 then save_with_legend (logged @ [NoExcerpts]) d
                 else
                   (case apply_highlights u d matches 0 of
                      Inl e \<Rightarrow> failed logged e
                    | Inr (d', applied) \<Rightarrow>
                        save_with_legend (logged @ [AppliedHighlights applied]) d'))))"


section \<open>Values used in the examples\<close>

text \<open>
  String methods to run the examples with. The white space is that of CPython's
  \<open>str.isspace\<close>. The two case mappings are Python's on strings of ASCII characters, and
  the examples apply them to such strings only.
\<close>

definition unicode_space :: "nat \<Rightarrow> bool" where
  "unicode_space c \<longleftrightarrow>
     c \<in> {0x09, 0x0A, 0x0B, 0x0C, 0x0D, 0x1C, 0x1D, 0x1E, 0x1F, 0x20, 0x85, 0xA0, 0x1680,
          0x2000, 0x2001, 0x2002, 0x2003, 0x2004, 0x2005, 0x2006, 0x2007, 0x2008, 0x2009,
          0x200A, 0x2028, 0x2029, 0x202F, 0x205F, 0x3000}"

definition ascii_lower :: "pystr \<Rightarrow> pystr" where
  "ascii_lower s = map (\<lambda>c. if 0x41 \<le> c \<and> c \<le> 0x5A then c + 0x20 else c) s"

definition ascii_upper :: "pystr \<Rightarrow> pystr" where
  "ascii_upper s = map (\<lambda>c. if 0x61 \<le> c \<and> c \<le> 0x7A then c - 0x20 else c) s"

definition ascii_methods :: str_methods where
  "ascii_methods = \<lparr>isspace = unicode_space, lower = ascii_lower, upper = ascii_upper\<rparr>"

text \<open>Two replies of the service, as the text \<open>json.loads\<close> receives, and the values it
  decodes them to: \<^verbatim>\<open>{"matches":[]}\<close> and
  \<^verbatim>\<open>{"matches":[{"category":"A","quotes":[null]}]}\<close>.\<close>

definition dquote :: string where
  "dquote = [CHR 0x22]"

definition reply_no_matches :: pystr where
  "reply_no_matches = str (''{'' @ dquote @ ''matches'' @ dquote @ '':[]}'')"


definition decoded_no_matches :: json where
  "decoded_no_matches = JObj [(str ''matches'', JArr [])]"



section \<open>Properties of the chunker\<close>

subsection \<open>The loop invariant\<close>

text \<open>
  After any number of iterations the chunks closed so far are the joins of groups of
  consecutive paragraphs, the groups followed by the buffer are the paragraphs read, a
  group of more than one paragraph stays within the budget (its cost is one more than
  its joined length), and \<open>current\<close> is the cost of the buffer.
\<close>

lemma length_join_cost:
  "b \<noteq> [] \<Longrightarrow> int (length (join [newline] b)) + 1 = buffer_cost b"
proof (induction b)
  case Nil
  then show ?case by simp
next
  case (Cons x xs)
  show ?case
  proof (cases xs)
    case Nil
    then show ?thesis by (simp add: buffer_cost_def)
  next
    case (Cons y ys)
    with Cons.IH have "int (length (join [newline] xs)) + 1 = buffer_cost xs" by simp
    with Cons show ?thesis by (simp add: buffer_cost_def)
  qed
qed

lemma buffer_cost_snoc: "buffer_cost (b @ [p]) = buffer_cost b + int (length p) + 1"
  by (simp add: buffer_cost_def)

lemma chunk_step_flush:
  "begins_new_chunk B s p \<Longrightarrow>
   chunk_step B s p =
     \<lparr>chunks = chunks s @ [join [newline] (buffer s)], buffer = [p], current = int (length p) + 1\<rparr>"
  by (simp add: chunk_step_def)

lemma chunk_step_keep:
  "\<not> begins_new_chunk B s p \<Longrightarrow>
   chunk_step B s p =
     \<lparr>chunks = chunks s, buffer = buffer s @ [p], current = current s + (int (length p) + 1)\<rparr>"
  by (simp add: chunk_step_def)

lemma chunk_loop_invariant:
  "\<exists>gs. concat gs @ buffer (foldl (chunk_step B) chunk_init ps) = ps \<and>
        [] \<notin> set gs \<and>
        chunks (foldl (chunk_step B) chunk_init ps) = map (join [newline]) gs \<and>
        (\<forall>g\<in>set gs. buffer_cost g \<le> B \<or> length g = 1) \<and>
        current (foldl (chunk_step B) chunk_init ps) = buffer_cost (buffer (foldl (chunk_step B) chunk_init ps)) \<and>
        (buffer_cost (buffer (foldl (chunk_step B) chunk_init ps)) \<le> B \<or>
         length (buffer (foldl (chunk_step B) chunk_init ps)) \<le> 1)"
proof (induction ps rule: rev_induct)
  case Nil
  show ?case by (rule exI [of _ "[]"]) (simp add: chunk_init_def buffer_cost_def)
next
  case (snoc p ps)
  define s where "s = foldl (chunk_step B) chunk_init ps"
  from snoc obtain gs where gs:
    "concat gs @ buffer s = ps" "[] \<notin> set gs" "chunks s = map (join [newline]) gs"
    "\<forall>g\<in>set gs. buffer_cost g \<le> B \<or> length g = 1"
    "current s = buffer_cost (buffer s)"
    "buffer_cost (buffer s) \<le> B \<or> length (buffer s) \<le> 1"
    unfolding s_def by blast
  have step: "foldl (chunk_step B) chunk_init (ps @ [p]) = chunk_step B s p"
    by (simp add: s_def)
  show ?case
  proof (cases "begins_new_chunk B s p")
    case True
    then have ne: "buffer s \<noteq> []" by (simp add: begins_new_chunk_def)
    with gs(6) have "buffer_cost (buffer s) \<le> B \<or> length (buffer s) = 1"
      by (cases "buffer s") auto
    with gs ne True show ?thesis
      unfolding step
      by (intro exI [of _ "gs @ [buffer s]"]) (auto simp: chunk_step_flush buffer_cost_def)
  next
    case False
    then have "buffer s = [] \<or> current s + int (length p) + 1 \<le> B"
      by (auto simp: begins_new_chunk_def)
    with gs False show ?thesis
      unfolding step
      by (intro exI [of _ gs]) (auto simp: chunk_step_keep buffer_cost_snoc)
  qed
qed

lemma chunk_text_groups:
  "\<exists>gs. concat gs = ps \<and> [] \<notin> set gs \<and> chunk_text ps B = map (join [newline]) gs \<and>
        (\<forall>g\<in>set gs. buffer_cost g \<le> B \<or> length g = 1)"
proof -
  define s where "s = foldl (chunk_step B) chunk_init ps"
  from chunk_loop_invariant [of B ps] obtain gs where gs:
    "concat gs @ buffer s = ps" "[] \<notin> set gs" "chunks s = map (join [newline]) gs"
    "\<forall>g\<in>set gs. buffer_cost g \<le> B \<or> length g = 1"
    "buffer_cost (buffer s) \<le> B \<or> length (buffer s) \<le> 1"
    unfolding s_def by blast
  show ?thesis
  proof (cases "buffer s = []")
    case True
    with gs show ?thesis
      by (intro exI [of _ gs]) (simp add: chunk_text_def chunk_finish_def s_def [symmetric])
  next
    case False
    with gs(5) have "buffer_cost (buffer s) \<le> B \<or> length (buffer s) = 1"
      by (cases "buffer s") auto
    with gs False show ?thesis
      by (intro exI [of _ "gs @ [buffer s]"])
         (auto simp: chunk_text_def chunk_finish_def s_def [symmetric])
  qed
qed

lemma split_on_free: "sep \<notin> set x \<Longrightarrow> split_on sep x = [x]"
  by (induction x) auto

lemma split_on_append:
  "sep \<notin> set x \<Longrightarrow> split_on sep (x @ sep # rest) = x # split_on sep rest"
  by (induction x) auto

lemma split_on_join:
  "g \<noteq> [] \<Longrightarrow> \<forall>p\<in>set g. sep \<notin> set p \<Longrightarrow> split_on sep (join [sep] g) = g"
proof (induction g)
  case Nil
  then show ?case by simp
next
  case (Cons x xs)
  show ?case
  proof (cases xs)
    case Nil
    with Cons.prems show ?thesis by (simp add: split_on_free)
  next
    case (Cons y ys)
    with Cons.IH Cons.prems have "split_on sep (join [sep] xs) = xs" by simp
    with Cons Cons.prems show ?thesis by (simp add: split_on_append)
  qed
qed

lemma split_on_join_groups:
  "[] \<notin> set gs \<Longrightarrow> \<forall>p\<in>set (concat gs). sep \<notin> set p \<Longrightarrow>
   concat (map (split_on sep) (map (join [sep]) gs)) = concat gs"
  by (induction gs) (auto simp: split_on_join)



subsection \<open>Round trip\<close>

text \<open>
  A paragraph may contain a line feed (a line break inside a paragraph of the document
  reads as one, and \<open>strip\<close> removes them at the two ends only). Splitting the chunk of
  the single paragraph \<open>a\<newline>b\<close> at the line feed gives two strings, not the paragraph.
\<close>

theorem chunk_text_roundtrip_counterexample:
  "str ''a'' @ [newline] @ str ''b'' \<noteq> [] \<and> (0::int) < 10 \<and>
   concat (map (split_on newline) (chunk_text [str ''a'' @ [newline] @ str ''b''] 10)) =
     [str ''a'', str ''b''] \<and>
   concat (map (split_on newline) (chunk_text [str ''a'' @ [newline] @ str ''b''] 10))
     \<noteq> [str ''a'' @ [newline] @ str ''b'']"
  by (simp add: chunk_text_def chunk_finish_def chunk_step_def chunk_init_def
      begins_new_chunk_def newline_def str_def)

text \<open>
  C1, amended. For every list \<open>P\<close> of paragraphs and every budget \<open>B\<close>, the chunks of
  \<open>chunk_text P B\<close> are the joins, with a line feed, of non-empty groups of consecutive
  paragraphs, and the groups in order make up \<open>P\<close>: no paragraph is dropped, repeated
  or moved. When no paragraph contains a line feed, splitting every chunk at the line
  feeds and concatenating the pieces gives \<open>P\<close> back. The empty list yields no chunk.
\<close>

theorem chunk_text_roundtrip:
  "(\<exists>gs. concat gs = P \<and> [] \<notin> set gs \<and> chunk_text P B = map (join [newline]) gs) \<and>
   ((\<forall>p\<in>set P. newline \<notin> set p) \<longrightarrow> concat (map (split_on newline) (chunk_text P B)) = P) \<and>
   chunk_text [] B = []"
proof -
  from chunk_text_groups [of P B] obtain gs where gs:
    "concat gs = P" "[] \<notin> set gs" "chunk_text P B = map (join [newline]) gs"
    by blast
  then have "\<exists>gs. concat gs = P \<and> [] \<notin> set gs \<and> chunk_text P B = map (join [newline]) gs"
    by blast
  moreover have "concat (map (split_on newline) (chunk_text P B)) = P"
    if "\<forall>p\<in>set P. newline \<notin> set p"
    using that gs split_on_join_groups [of gs newline] by simp
  moreover have "chunk_text [] B = []"
    by (simp add: chunk_text_def chunk_finish_def chunk_init_def)
  ultimately show ?thesis by blast
qed

text \<open>The round trip at three paragraphs and a budget of 6: two chunks, split back into
  the three paragraphs.\<close>

theorem chunk_text_roundtrip_witness:
  "newline \<notin> set (str ''ab'') \<and> newline \<notin> set (str ''cd'') \<and> newline \<notin> set (str ''ef'') \<and>
   concat (map (split_on newline) (chunk_text [(str ''ab''), (str ''cd''), (str ''ef'')] 6)) = [(str ''ab''), (str ''cd''), (str ''ef'')]"
  using chunk_text_roundtrip [of "[(str ''ab''), (str ''cd''), (str ''ef'')]" 6] by (simp add: newline_def str_def)


subsection \<open>The budget\<close>

text \<open>
  C3. For every list \<open>P\<close> of paragraphs and every budget \<open>B\<close>, a chunk of
  \<open>chunk_text P B\<close> is no longer than \<open>B\<close>, unless it is a single paragraph that is
  itself longer than \<open>B\<close>: such a paragraph is a chunk of its own, in one piece. The
  first conjunct says it on the groups of paragraphs the chunks are made of, the second
  on the chunks as strings.
\<close>

theorem chunk_text_budget:
  "(\<exists>gs. concat gs = P \<and> chunk_text P B = map (join [newline]) gs \<and>
      (\<forall>g\<in>set gs. int (length (join [newline] g)) \<le> B \<or> (\<exists>p. g = [p] \<and> B < int (length p)))) \<and>
   (\<forall>c\<in>set (chunk_text P B). int (length c) \<le> B \<or> (c \<in> set P \<and> B < int (length c)))"
proof -
  from chunk_text_groups [of P B] obtain gs where gs:
    "concat gs = P" "[] \<notin> set gs" "chunk_text P B = map (join [newline]) gs"
    "\<forall>g\<in>set gs. buffer_cost g \<le> B \<or> length g = 1"
    by blast
  have bound: "int (length (join [newline] g)) \<le> B \<or> (\<exists>p. g = [p] \<and> B < int (length p))"
    if g: "g \<in> set gs" for g
  proof -
    from g gs(2) have ne: "g \<noteq> []" by auto
    from g gs(4) have "buffer_cost g \<le> B \<or> length g = 1" by blast
    then show ?thesis
    proof
      assume "buffer_cost g \<le> B"
      with length_join_cost [OF ne] show ?thesis by simp
    next
      assume "length g = 1"
      then obtain p where "g = [p]" by (cases g) auto
      then show ?thesis by (cases "int (length p) \<le> B") auto
    qed
  qed
  have "int (length c) \<le> B \<or> (c \<in> set P \<and> B < int (length c))"
    if c: "c \<in> set (chunk_text P B)" for c
  proof -
    from c gs(3) obtain g where g: "g \<in> set gs" "c = join [newline] g" by auto
    from bound [OF g(1)] show ?thesis
    proof
      assume "int (length (join [newline] g)) \<le> B"
      with g show ?thesis by simp
    next
      assume "\<exists>p. g = [p] \<and> B < int (length p)"
      then obtain p where p: "g = [p]" "B < int (length p)" by blast
      from p g have "p \<in> set g" "c = p" by simp_all
      with g(1) gs(1) have "c \<in> set P" by auto
      with p g show ?thesis by simp
    qed
  qed
  with bound gs(1,3) show ?thesis by blast
qed

text \<open>With a budget of 6 the first two paragraphs share a chunk of length 5 and the
  third, of length 7, is a chunk of its own.\<close>

theorem chunk_text_budget_witness:
  "chunk_text [(str ''ab''), (str ''cd''), (str ''efghijk'')] 6 = [(str ''ab'') @ [newline] @ (str ''cd''), (str ''efghijk'')] \<and>
   int (length ((str ''ab'') @ [newline] @ (str ''cd''))) \<le> 6 \<and>
   (str ''efghijk'') \<in> set [(str ''ab''), (str ''cd''), (str ''efghijk'')] \<and> 6 < int (length (str ''efghijk''))"
  using chunk_text_budget [of "[(str ''ab''), (str ''cd''), (str ''efghijk'')]" 6]
  by (simp add: chunk_text_def chunk_finish_def chunk_step_def chunk_init_def begins_new_chunk_def
      str_def)


subsection \<open>Where a new chunk begins\<close>

text \<open>
  The loop adds one to \<open>current\<close> for every paragraph, the last of the buffer too, so
  \<open>current\<close> is one more than the length of the joined buffer. With a budget of 5,
  \<open>ab\<close> and \<open>cd\<close> joined have length 5, which does not exceed the budget, and the loop
  begins a new chunk all the same.
\<close>

theorem chunk_boundary_counterexample:
  "buffer (foldl (chunk_step 5) chunk_init [(str ''ab'')]) \<noteq> [] \<and>
   int (length (join [newline] (buffer (foldl (chunk_step 5) chunk_init [(str ''ab'')]) @ [(str ''cd'')]))) \<le> 5 \<and>
   begins_new_chunk 5 (foldl (chunk_step 5) chunk_init [(str ''ab'')]) (str ''cd'') \<and>
   chunk_text [(str ''ab''), (str ''cd'')] 5 = [(str ''ab''), (str ''cd'')]"
  by (simp add: chunk_text_def chunk_finish_def chunk_step_def chunk_init_def begins_new_chunk_def
      str_def)

text \<open>
  C8, amended. In a state \<open>s\<close> the loop reaches, a new chunk begins at the paragraph
  \<open>p\<close> exactly when the buffer is not empty and the buffer joined with \<open>p\<close> would be as
  long as the budget or longer. Then the buffer is closed as a chunk and \<open>p\<close> starts the
  next one; otherwise (the buffer is empty, or the joined length stays below the
  budget) \<open>p\<close> is added to the buffer and no chunk is closed.
\<close>

theorem chunk_boundary:
  assumes "s = foldl (chunk_step B) chunk_init ps"
  shows "(begins_new_chunk B s p \<longleftrightarrow>
            buffer s \<noteq> [] \<and> B \<le> int (length (join [newline] (buffer s @ [p])))) \<and>
         chunks (chunk_step B s p) =
           (if buffer s \<noteq> [] \<and> B \<le> int (length (join [newline] (buffer s @ [p])))
            then chunks s @ [join [newline] (buffer s)] else chunks s) \<and>
         buffer (chunk_step B s p) =
           (if buffer s \<noteq> [] \<and> B \<le> int (length (join [newline] (buffer s @ [p])))
            then [p] else buffer s @ [p])"
proof -
  from chunk_loop_invariant [of B ps] assms have cur: "current s = buffer_cost (buffer s)"
    by blast
  have "int (length (join [newline] (buffer s @ [p]))) + 1 = buffer_cost (buffer s @ [p])"
    by (rule length_join_cost) simp
  with cur have len: "int (length (join [newline] (buffer s @ [p]))) = current s + int (length p)"
    by (simp add: buffer_cost_snoc)
  have iff: "begins_new_chunk B s p \<longleftrightarrow>
      buffer s \<noteq> [] \<and> B \<le> int (length (join [newline] (buffer s @ [p])))"
    unfolding len begins_new_chunk_def by auto
  show ?thesis
  proof (cases "begins_new_chunk B s p")
    case True
    with iff show ?thesis by (simp add: chunk_step_flush)
  next
    case False
    with iff show ?thesis by (simp add: chunk_step_keep)
  qed
qed

text \<open>After \<open>ab\<close>, the paragraph \<open>cd\<close> begins a new chunk at a budget of 5 and joins the
  buffer at a budget of 6.\<close>

theorem chunk_boundary_witness:
  "begins_new_chunk 5 (foldl (chunk_step 5) chunk_init [(str ''ab'')]) (str ''cd'') \<and>
   buffer (chunk_step 5 (foldl (chunk_step 5) chunk_init [(str ''ab'')]) (str ''cd'')) = [(str ''cd'')] \<and>
   \<not> begins_new_chunk 6 (foldl (chunk_step 6) chunk_init [(str ''ab'')]) (str ''cd'') \<and>
   buffer (chunk_step 6 (foldl (chunk_step 6) chunk_init [(str ''ab'')]) (str ''cd'')) = [(str ''ab''), (str ''cd'')]"
  using chunk_boundary [of "foldl (chunk_step 5) chunk_init [(str ''ab'')]" 5 "[(str ''ab'')]" "(str ''cd'')"]
        chunk_boundary [of "foldl (chunk_step 6) chunk_init [(str ''ab'')]" 6 "[(str ''ab'')]" "(str ''cd'')"]
  by (simp add: chunk_step_def chunk_init_def begins_new_chunk_def str_def)


section \<open>Properties of shading and highlighting\<close>

text \<open>The definitions of the string functions, for evaluating the examples.\<close>

lemmas str_simps =
  str_def strip_def ascii_methods_def unicode_space_def ascii_lower_def ascii_upper_def

subsection \<open>What shading changes\<close>

lemma run_text_apply_shading: "run_text (apply_shading r c) = run_text r"
  by (simp add: apply_shading_def Let_def)


lemma inline_text_shade: "inline_text (shade_inline c i) = inline_text i"
  by (cases i) (simp_all add: run_text_apply_shading)

lemma paragraph_text_shade_runs: "paragraph_text (shade_runs c p) = paragraph_text p"
  by (simp add: paragraph_text_def shade_runs_def inline_text_shade comp_def)








lemma highlight_loop:
  "foldl (highlight_step u nl c) (acc, a) ps =
     (acc @ map (\<lambda>p. if strip u (paragraph_text p) \<noteq> [] \<and> sublist nl (lower u (strip u (paragraph_text p)))
                      then shade_runs c p else p) ps,
      a \<or> (\<exists>p\<in>set ps. strip u (paragraph_text p) \<noteq> [] \<and> sublist nl (lower u (strip u (paragraph_text p)))))"
  by (induction ps arbitrary: acc a) (auto simp: highlight_step_def Let_def)

lemma highlight_quote_eq:
  "strip u q \<noteq> [] \<Longrightarrow>
   highlight_quote u d q c =
     (Document (map (\<lambda>p. if quote_found u q p then shade_runs c p else p) (paragraphs d)),
      \<exists>p\<in>set (paragraphs d). quote_found u q p)"
  by (simp add: highlight_quote_def Let_def highlight_loop quote_found_def)

lemma highlight_quote_blank: "strip u q = [] \<Longrightarrow> highlight_quote u d q c = (d, False)"
  by (simp add: highlight_quote_def)

lemma highlight_quote_texts:
  "map paragraph_text (paragraphs (fst (highlight_quote u d q c))) = map paragraph_text (paragraphs d)"
proof (cases "strip u q = []")
  case True
  then show ?thesis by (simp add: highlight_quote_blank)
next
  case False
  then show ?thesis by (simp add: highlight_quote_eq comp_def paragraph_text_shade_runs)
qed

subsection \<open>The matcher\<close>






subsection \<open>Shading a run again\<close>

text \<open>
  C2. The claim is that after any sequence of applications a run carries exactly one
  shading value, the latest. \<open>apply_shading\<close> removes the \<open>w:highlight\<close> children of
  the run properties and appends a \<open>w:shd\<close>; it does not remove a \<open>w:shd\<close> that is
  already there. A run shaded twice carries both \<open>w:shd\<close> elements, and the same quote
  highlighted twice leaves two in every run of the paragraph.
\<close>

theorem apply_shading_layers:
  "markings (apply_shading \<lparr>run_text = str ''x'', rPr = None\<rparr> (str ''FFF2CC'')) =
     [shd_element (str ''FFF2CC'')] \<and>
   markings (apply_shading (apply_shading \<lparr>run_text = str ''x'', rPr = None\<rparr> (str ''FFF2CC''))
               (str ''DAEEF3'')) =
     [shd_element (str ''FFF2CC''), shd_element (str ''DAEEF3'')] \<and>
   fst (highlight_quote ascii_methods
         (fst (highlight_quote ascii_methods
                (Document [Paragraph [R \<lparr>run_text = str ''The quick Brown fox'', rPr = None\<rparr>]])
                (str ''brown fox'') (str ''FFF2CC'')))
         (str ''brown fox'') (str ''FFF2CC'')) =
     Document [Paragraph [R \<lparr>run_text = str ''The quick Brown fox'',
                            rPr = Some [shd_element (str ''FFF2CC''), shd_element (str ''FFF2CC'')]\<rparr>]]"
  by (simp add: markings_def apply_shading_def get_or_add_rPr_def shd_element_def qn_def
      highlight_quote_def highlight_step_def str_simps sublist_code paragraph_text_def shade_runs_def)

section \<open>Properties of the parser\<close>

lemma strip_Nil: "strip u [] = []"
  by (simp add: strip_def)

lemma category_codes:
  "map fst CATEGORY_DETAILS = map str [''A'', ''B'', ''C'', ''D'', ''E'', ''F'', ''G'', ''H'']"
  by (simp add: CATEGORY_DETAILS_def)

lemma category_unknown:
  "map_of CATEGORY_DETAILS cat = None \<longleftrightarrow>
     cat \<notin> set (map str [''A'', ''B'', ''C'', ''D'', ''E'', ''F'', ''G'', ''H''])"
  unfolding map_of_eq_None_iff category_codes [symmetric] by simp

lemma quotes_loop_strings:
  "quotes_loop u cat (map JStr qs) matches =
     Inr (matches @ map (\<lambda>q. \<lparr>category = cat, quote = q\<rparr>) (filter (\<lambda>q. q \<noteq> []) (map (strip u) qs)))"
  by (induction qs arbitrary: matches) (auto simp: strip_Nil)

lemma items_loop_conforms:
  assumes "conforms item e"
  shows "items_loop u (item # items) matches = items_loop u items (matches @ entry_matches u e)"
proof -
  from assms obtain kvs where item: "item = JObj kvs"
    and cat: "map_of kvs (str ''category'') = Some (JStr (fst e))"
    and quotes: "map_of kvs (str ''quotes'') = Some (JArr (map JStr (snd e)))"
    by (cases item) auto
  show ?thesis
  proof (cases "map_of CATEGORY_DETAILS (upper u (strip u (fst e))) = None")
    case True
    then have "entry_matches u e = []"
      unfolding category_unknown by (simp add: entry_matches_def Let_def)
    with True item cat show ?thesis by (simp add: Let_def)
  next
    case False
    then have "entry_matches u e =
        map (\<lambda>q. \<lparr>category = upper u (strip u (fst e)), quote = q\<rparr>)
          (filter (\<lambda>q. q \<noteq> []) (map (strip u) (snd e)))"
      unfolding category_unknown by (simp add: entry_matches_def Let_def)
    with False item cat quotes show ?thesis
      by (auto simp: quotes_loop_strings Let_def)
  qed
qed

lemma items_loop_well_formed:
  "list_all2 conforms items entries \<Longrightarrow>
   items_loop u items matches = Inr (matches @ concat (map (entry_matches u) entries))"
proof (induction items entries arbitrary: matches rule: list_all2_induct)
  case Nil
  show ?case by simp
next
  case (Cons item items e entries)
  from Cons.hyps(1) have "items_loop u (item # items) matches = items_loop u items (matches @ entry_matches u e)"
    by (rule items_loop_conforms)
  with Cons.IH show ?case by simp
qed

lemma conforms_entry_json: "conforms (entry_json e) e"
  by (simp add: entry_json_def str_def)

lemma well_formed_response_json: "well_formed (response_json entries) entries"
  by (simp add: response_json_def list_all2_map1 conforms_entry_json list_all2_same)

lemma parse_matches_conforming:
  assumes "well_formed parsed entries"
  shows "parse_matches u parsed = Inr (concat (map (entry_matches u) entries))"
proof -
  from assms obtain kvs items where "parsed = JObj kvs" "map_of kvs (str ''matches'') = Some (JArr items)"
    "list_all2 conforms items entries"
    by (cases parsed) (auto split: option.splits json.splits)
  then show ?thesis by (simp add: parse_matches_def items_loop_well_formed)
qed

lemma parse_matches_response_json:
  "parse_matches u (response_json entries) = Inr (concat (map (entry_matches u) entries))"
  by (rule parse_matches_conforming) (rule well_formed_response_json)

text \<open>
  C5. For every well-formed decoded response, each entry's category is trimmed and put
  in upper case; an entry whose category is then not one of the eight codes \<open>A\<close> to \<open>H\<close>
  yields nothing and raises nothing; each quote is trimmed and dropped when empty;
  every remaining pair of category and quote yields one \<open>QuoteMatch\<close>, in the order of
  the response.
\<close>

theorem parse_matches_well_formed:
  assumes "well_formed parsed entries"
  shows "parse_matches u parsed = Inr (concat (map (entry_matches u) entries)) \<and>
         map fst CATEGORY_DETAILS = map str [''A'', ''B'', ''C'', ''D'', ''E'', ''F'', ''G'', ''H'']"
  using assms by (simp add: parse_matches_conforming category_codes)

text \<open>The category \<open>a\<close> with the quote \<open>Hello world\<close> yields one match of category \<open>A\<close>;
  the category \<open>Z\<close> yields none; a blank quote is dropped, and so is one that is a
  no-break space; a no-break space before the category is trimmed.\<close>

theorem parse_matches_well_formed_witness:
  "well_formed
     (JObj [(str ''matches'',
        JArr [JObj [(str ''category'', JStr (str ''a'')), (str ''quotes'', JArr [JStr (str ''Hello world'')])]])])
     [(str ''a'', [str ''Hello world''])] \<and>
   parse_matches ascii_methods
     (JObj [(str ''matches'',
        JArr [JObj [(str ''category'', JStr (str ''a'')), (str ''quotes'', JArr [JStr (str ''Hello world'')])]])])
     = Inr [\<lparr>category = str ''A'', quote = str ''Hello world''\<rparr>] \<and>
   well_formed
     (JObj [(str ''matches'',
        JArr [JObj [(str ''category'', JStr (str ''Z'')), (str ''quotes'', JArr [JStr (str ''Hello world'')])]])])
     [(str ''Z'', [str ''Hello world''])] \<and>
   parse_matches ascii_methods
     (JObj [(str ''matches'',
        JArr [JObj [(str ''category'', JStr (str ''Z'')), (str ''quotes'', JArr [JStr (str ''Hello world'')])]])])
     = Inr [] \<and>
   well_formed
     (JObj [(str ''matches'',
        JArr [JObj [(str ''quotes'', JArr [JStr (str ''  ''), JStr [0xA0], JStr (str '' kept '')]),
                    (str ''category'', JStr (0xA0 # str ''b''))]])])
     [(0xA0 # str ''b'', [str ''  '', [0xA0], str '' kept ''])] \<and>
   parse_matches ascii_methods
     (JObj [(str ''matches'',
        JArr [JObj [(str ''quotes'', JArr [JStr (str ''  ''), JStr [0xA0], JStr (str '' kept '')]),
                    (str ''category'', JStr (0xA0 # str ''b''))]])])
     = Inr [\<lparr>category = str ''B'', quote = str ''kept''\<rparr>]"
  using parse_matches_well_formed
          [of "JObj [(str ''matches'',
                 JArr [JObj [(str ''category'', JStr (str ''a'')),
                             (str ''quotes'', JArr [JStr (str ''Hello world'')])]])]"
              "[(str ''a'', [str ''Hello world''])]" ascii_methods]
        parse_matches_well_formed
          [of "JObj [(str ''matches'',
                 JArr [JObj [(str ''category'', JStr (str ''Z'')),
                             (str ''quotes'', JArr [JStr (str ''Hello world'')])]])]"
              "[(str ''Z'', [str ''Hello world''])]" ascii_methods]
        parse_matches_well_formed
          [of "JObj [(str ''matches'',
                 JArr [JObj [(str ''quotes'', JArr [JStr (str ''  ''), JStr [0xA0], JStr (str '' kept '')]),
                             (str ''category'', JStr (0xA0 # str ''b''))]])]"
              "[(0xA0 # str ''b'', [str ''  '', [0xA0], str '' kept ''])]" ascii_methods]
  by (simp add: entry_matches_def str_simps)

section \<open>Properties of the pipeline\<close>

lemmas chunk_simps =
  chunk_text_def chunk_finish_def chunk_step_def chunk_init_def begins_new_chunk_def


lemma code_chunk_no_matches:
  "snd (code_chunk u create loads c) = Inr [] \<Longrightarrow>
   code_chunk u create loads c = ([CodingChunk (length c), ReceivedMatches 0], Inr [])"
  by (auto simp: code_chunk_def Let_def split: completion.splits list.splits option.splits sum.splits)



lemma code_chunks_no_matches:
  "\<forall>c\<in>set cs. snd (code_chunk u create loads c) = Inr [] \<Longrightarrow>
   code_chunks u create loads cs logged matches =
     (logged @ concat (map (\<lambda>c. [CodingChunk (length c), ReceivedMatches 0]) cs), Inr matches)"
  by (induction cs arbitrary: logged matches) (simp_all add: code_chunk_no_matches)



lemma apply_highlights_texts:
  "apply_highlights u d ms n = Inr (d', k) \<Longrightarrow>
   map paragraph_text (paragraphs d') = map paragraph_text (paragraphs d)"
proof (induction ms arbitrary: d n)
  case Nil
  then show ?case by simp
next
  case (Cons m ms)
  show ?case
  proof (cases "map_of CATEGORY_DETAILS (category m)")
    case None
    with Cons.prems show ?thesis by simp
  next
    case (Some meta)
    with Cons.prems have
      "apply_highlights u (fst (highlight_quote u d (quote m) (color meta))) ms
         (if snd (highlight_quote u d (quote m) (color meta)) then n + 1 else n) = Inr (d', k)"
      by (simp add: Let_def)
    from Cons.IH [OF this] show ?thesis by (simp add: highlight_quote_texts)
  qed
qed

lemma process_document_saved:
  assumes "saved (process_document u create loads d) = Some out"
  shows "\<exists>d'. out = append_legend d' \<and>
              map paragraph_text (paragraphs d') = map paragraph_text (paragraphs d)"
proof -
  from assms have ne: "document_texts u d \<noteq> []"
    by (auto simp: process_document_def failed_def Let_def)
  obtain l r where cc: "code_chunks u create loads (chunk_text (document_texts u d) 3500) [LoadingTranscript] [] = (l, r)"
    by (cases "code_chunks u create loads (chunk_text (document_texts u d) 3500) [LoadingTranscript] []")
  show ?thesis
  proof (cases r)
    case (Inl e)
    with assms ne cc show ?thesis by (simp add: process_document_def failed_def)
  next
    case (Inr matches)
    show ?thesis
    proof (cases "matches = []")
      case True
      with assms ne cc Inr have "out = append_legend d"
        by (simp add: process_document_def save_with_legend_def)
      then show ?thesis by blast
    next
      case False
      show ?thesis
      proof (cases "apply_highlights u d matches 0")
        case (Inl e)
        with assms ne cc Inr False show ?thesis
          by (simp add: process_document_def failed_def)
      next
        case (Inr res)
        obtain d' k where res: "res = (d', k)" by (cases res)
        with assms ne cc \<open>r = Inr matches\<close> False Inr have "out = append_legend d'"
          by (simp add: process_document_def save_with_legend_def)
        moreover from Inr res have "map paragraph_text (paragraphs d') = map paragraph_text (paragraphs d)"
          by (simp add: apply_highlights_texts)
        ultimately show ?thesis by blast
      qed
    qed
  qed
qed

lemma length_legend_paragraphs: "length legend_paragraphs = 9"
  by (simp add: legend_paragraphs_def CATEGORY_DETAILS_def)

subsection \<open>A reply that cannot be decoded\<close>




subsection \<open>The text of the document\<close>

text \<open>
  C7. Shading a run leaves its text as it was; \<open>highlight_quote\<close> leaves the text of
  every paragraph as it was; the legend is appended after the paragraphs of the
  document and is nine paragraphs long. In every run of the pipeline that writes a
  document, the paragraphs of the input are there, in order, each with the text it
  had, and what follows them is the legend and nothing else.
\<close>

theorem text_content_invariant:
  "run_text (apply_shading r c) = run_text r \<and>
   map paragraph_text (paragraphs (fst (highlight_quote u d q c))) = map paragraph_text (paragraphs d) \<and>
   paragraphs (append_legend d) = paragraphs d @ legend_paragraphs \<and>
   length legend_paragraphs = 9 \<and>
   (\<forall>out. saved (process_document u create loads d) = Some out \<longrightarrow>
      map paragraph_text (take (length (paragraphs d)) (paragraphs out)) =
        map paragraph_text (paragraphs d) \<and>
      drop (length (paragraphs d)) (paragraphs out) = legend_paragraphs)"
proof -
  have "map paragraph_text (take (length (paragraphs d)) (paragraphs out)) =
          map paragraph_text (paragraphs d) \<and>
        drop (length (paragraphs d)) (paragraphs out) = legend_paragraphs"
    if "saved (process_document u create loads d) = Some out" for out
  proof -
    from process_document_saved [OF that] obtain d' where
      out: "out = append_legend d'"
      and texts: "map paragraph_text (paragraphs d') = map paragraph_text (paragraphs d)"
      by blast
    from texts have "length (paragraphs d') = length (paragraphs d)"
      by (rule map_eq_imp_length_eq)
    with out texts show ?thesis by (simp add: append_legend_def)
  qed
  then show ?thesis
    by (simp add: run_text_apply_shading highlight_quote_texts append_legend_def
        length_legend_paragraphs)
qed

text \<open>A run with one match: the paragraph is shaded, its text is unchanged and the legend
  follows it.\<close>

theorem text_content_invariant_witness:
  "saved (process_document ascii_methods (\<lambda>msg. Completion [Some (str ''reply'')])
            (\<lambda>s. Some (response_json [(str ''a'', [str ''brown fox''])]))
            (Document [Paragraph [R \<lparr>run_text = str ''The quick Brown fox'', rPr = None\<rparr>]])) =
     Some (Document (Paragraph [R \<lparr>run_text = str ''The quick Brown fox'',
                                   rPr = Some [shd_element (str ''FFF2CC'')]\<rparr>]
                       # legend_paragraphs)) \<and>
   map paragraph_text
     (take 1 (Paragraph [R \<lparr>run_text = str ''The quick Brown fox'',
                            rPr = Some [shd_element (str ''FFF2CC'')]\<rparr>]
                # legend_paragraphs)) = [str ''The quick Brown fox'']"
  using text_content_invariant
    [of "\<lparr>run_text = str ''x'', rPr = None\<rparr>" "str ''FFF2CC''" ascii_methods
        "Document [Paragraph [R \<lparr>run_text = str ''The quick Brown fox'', rPr = None\<rparr>]]"
        "str ''brown fox''" "\<lambda>msg. Completion [Some (str ''reply'')]"
        "\<lambda>s. Some (response_json [(str ''a'', [str ''brown fox''])])"]
  by (simp add: process_document_def document_texts_def paragraph_text_def str_simps chunk_simps
      code_chunk_def parse_matches_response_json entry_matches_def save_with_legend_def append_legend_def
      CATEGORY_DETAILS_def highlight_quote_def highlight_step_def sublist_code shade_runs_def
      apply_shading_def get_or_add_rPr_def)

subsection \<open>A run without matches\<close>

text \<open>
  When no match came back the program logs that no excerpts were returned and does not
  call \<open>_apply_highlights\<close>; the line with the number of highlights applied belongs to
  the other branch. A run on the reply \<^verbatim>\<open>{"matches":[]}\<close> succeeds and its log does not
  report a count of 0.
\<close>

theorem zero_match_run_counterexample:
  "failure (process_document ascii_methods (\<lambda>msg. Completion [Some reply_no_matches])
              (\<lambda>s. if s = reply_no_matches then Some decoded_no_matches else None)
              (Document [Paragraph [R \<lparr>run_text = str ''Hello'', rPr = None\<rparr>]])) = None \<and>
   messages (process_document ascii_methods (\<lambda>msg. Completion [Some reply_no_matches])
              (\<lambda>s. if s = reply_no_matches then Some decoded_no_matches else None)
              (Document [Paragraph [R \<lparr>run_text = str ''Hello'', rPr = None\<rparr>]])) =
     [LoadingTranscript, CodingChunk 5, ReceivedMatches 0, NoExcerpts, SavedTranscript] \<and>
   AppliedHighlights 0 \<notin> set (messages (process_document ascii_methods
              (\<lambda>msg. Completion [Some reply_no_matches])
              (\<lambda>s. if s = reply_no_matches then Some decoded_no_matches else None)
              (Document [Paragraph [R \<lparr>run_text = str ''Hello'', rPr = None\<rparr>]])))"
  by (simp add: process_document_def document_texts_def paragraph_text_def str_simps chunk_simps
      code_chunk_def parse_matches_def decoded_no_matches_def save_with_legend_def append_legend_def)

text \<open>
  C9, amended. For a document that has some text (a paragraph that is not empty once
  trimmed), if the classification of every chunk returns no match, the run does not
  fail: highlighting is skipped, the legend is appended, the document is saved, and
  what is saved is the input document followed by the legend. The log holds, after the
  lines of the chunks, the line that no excerpts were returned and the line that the
  document was saved; no number of applied highlights is reported.
\<close>

theorem zero_match_run:
  assumes "document_texts u d \<noteq> []"
    and "\<forall>c\<in>set (chunk_text (document_texts u d) 3500). snd (code_chunk u create loads c) = Inr []"
  shows "process_document u create loads d =
           \<lparr>messages =
              [LoadingTranscript] @
              concat (map (\<lambda>c. [CodingChunk (length c), ReceivedMatches 0])
                        (chunk_text (document_texts u d) 3500)) @
              [NoExcerpts, SavedTranscript],
            saved = Some (Document (paragraphs d @ legend_paragraphs)),
            failure = None\<rparr> \<and>
         (\<forall>n. AppliedHighlights n \<notin> set (messages (process_document u create loads d)))"
proof -
  have run: "process_document u create loads d =
           \<lparr>messages =
              [LoadingTranscript] @
              concat (map (\<lambda>c. [CodingChunk (length c), ReceivedMatches 0])
                        (chunk_text (document_texts u d) 3500)) @
              [NoExcerpts, SavedTranscript],
            saved = Some (Document (paragraphs d @ legend_paragraphs)),
            failure = None\<rparr>"
    using assms(1) code_chunks_no_matches [OF assms(2), of "[LoadingTranscript]" "[]"]
    by (simp add: process_document_def save_with_legend_def append_legend_def)
  have "AppliedHighlights n \<notin> set (messages (process_document u create loads d))" for n
    unfolding run by auto
  with run show ?thesis by blast
qed

text \<open>Two short paragraphs, the second with a no-break space after it, make one chunk of
  seven characters; the reply has no match.\<close>

theorem zero_match_run_witness:
  "document_texts ascii_methods
     (Document [Paragraph [R \<lparr>run_text = str ''One'', rPr = None\<rparr>],
                Paragraph [R \<lparr>run_text = str ''Two'' @ [0xA0], rPr = None\<rparr>]]) \<noteq> [] \<and>
   process_document ascii_methods (\<lambda>msg. Completion [Some reply_no_matches])
       (\<lambda>s. if s = reply_no_matches then Some decoded_no_matches else None)
       (Document [Paragraph [R \<lparr>run_text = str ''One'', rPr = None\<rparr>],
                  Paragraph [R \<lparr>run_text = str ''Two'' @ [0xA0], rPr = None\<rparr>]]) =
     \<lparr>messages = [LoadingTranscript, CodingChunk 7, ReceivedMatches 0, NoExcerpts, SavedTranscript],
      saved = Some (Document ([Paragraph [R \<lparr>run_text = str ''One'', rPr = None\<rparr>],
                               Paragraph [R \<lparr>run_text = str ''Two'' @ [0xA0], rPr = None\<rparr>]]
                              @ legend_paragraphs)),
      failure = None\<rparr>"
  using zero_match_run
    [of ascii_methods
        "Document [Paragraph [R \<lparr>run_text = str ''One'', rPr = None\<rparr>],
                   Paragraph [R \<lparr>run_text = str ''Two'' @ [0xA0], rPr = None\<rparr>]]"
        "\<lambda>msg. Completion [Some reply_no_matches]"
        "\<lambda>s. if s = reply_no_matches then Some decoded_no_matches else None"]
  by (simp add: document_texts_def paragraph_text_def str_simps chunk_simps
      code_chunk_def parse_matches_def decoded_no_matches_def newline_def)

end
